theory Spec2Isabelle
  imports Complex_Main "HOL-Library.Multiset"
begin

section \<open>BLEU score: a shallow embedding of \<open>01_nlp_evals/bleu_score.ipynb\<close>\<close>

text \<open>
  The notebook defines four Python functions: \<open>preprocess_text\<close>, \<open>n_gram_precision\<close>,
  \<open>brevity_penalty\<close> and \<open>bleu_score_sentence\<close>. Each becomes a HOL function of the same
  name. A \<open>raise\<close> and every exception of the Python runtime that the code can reach is a
  value \<open>Inl e\<close> of the result type \<open>error + 'a\<close>. Python's \<open>int\<close> is \<open>int\<close>; Python's
  \<open>float\<close> is idealised as \<open>real\<close> (no rounding, no overflow), which is exact for the
  comparisons with \<open>0\<close> that the code makes on quotients of integers.
\<close>

subsection \<open>Errors\<close>

datatype error =
    ValueError string
  | AttributeError
  | IndexError
  | ZeroDivisionError
  | MeanOfEmptySlice

subsection \<open>Counter\<close>

text \<open>
  \<open>collections.Counter\<close> is a dictionary from keys to integer counts that keeps its keys
  in the order of their first insertion: an association list with distinct keys.
  Reading a missing key gives \<open>0\<close> and does not insert it; assigning to a key replaces
  its count in place, or appends the key.
\<close>

type_synonym 'k counter = "('k \<times> int) list"

definition get_count :: "'k counter \<Rightarrow> 'k \<Rightarrow> int" where
  "get_count c k = (case map_of c k of None \<Rightarrow> 0 | Some v \<Rightarrow> v)"

fun set_count :: "'k counter \<Rightarrow> 'k \<Rightarrow> int \<Rightarrow> 'k counter" where
  "set_count [] k v = [(k, v)]"
| "set_count ((k', v') # c) k v =
     (if k' = k then (k, v) # c else (k', v') # set_count c k v)"

definition Counter :: "'k list \<Rightarrow> 'k counter" where
  "Counter xs = foldl (\<lambda>c x. set_count c x (get_count c x + 1)) [] xs"

definition keys :: "'k counter \<Rightarrow> 'k list" where
  "keys c = map fst c"

definition values_of :: "'k counter \<Rightarrow> int list" where
  "values_of c = map snd c"

subsection \<open>n-gram precision\<close>

text \<open>
  The comprehension \<open>[tuple(xs[i:i+n]) for i in range(len(xs)-n+1)]\<close>, which the source
  writes once for the candidate and once for each reference. It is only evaluated for
  \<open>n \<ge> 1\<close>, where the slice \<open>xs[i:i+n]\<close> with \<open>0 \<le> i\<close> is \<open>take n (drop i xs)\<close>; a
  \<open>range\<close> of a number that is not positive is empty.
\<close>

definition n_grams :: "'a list \<Rightarrow> int \<Rightarrow> 'a list list" where
  "n_grams xs n =
     map (\<lambda>i. take (nat n) (drop i xs)) [0 ..< nat (int (length xs) - n + 1)]"

text \<open>
  The loop over the references, with the inner loop over the keys of one reference's
  counter: \<open>max_reference_n_grams[n_gram] = max(max_reference_n_grams[n_gram],
  reference_n_grams[n_gram])\<close>.
\<close>

definition merge_max :: "'k counter \<Rightarrow> 'k counter \<Rightarrow> 'k counter" where
  "merge_max max_reference_n_grams reference_n_grams =
     foldl (\<lambda>m n_gram.
              set_count m n_gram (max (get_count m n_gram) (get_count reference_n_grams n_gram)))
       max_reference_n_grams (keys reference_n_grams)"

definition max_reference :: "'a list list \<Rightarrow> int \<Rightarrow> 'a list counter" where
  "max_reference references n =
     foldl (\<lambda>m reference. merge_max m (Counter (n_grams reference n))) [] references"

definition n_gram_precision ::
  "'a list \<Rightarrow> 'a list list \<Rightarrow> int \<Rightarrow> error + (int \<times> int)" where
  "n_gram_precision candidate references n =
     (if n < 1 then Inl (ValueError ''n must be greater or equal 1.'')
      else
        let candidate_n_grams = Counter (n_grams candidate n);
            max_reference_n_grams = max_reference references n;
            clipped_counts =
              map (\<lambda>(ng, count). (ng, min count (get_count max_reference_n_grams ng)))
                candidate_n_grams
        in Inr (sum_list (values_of clipped_counts), sum_list (values_of candidate_n_grams)))"

text \<open>
  The quantities the specification speaks of: the largest count of an n-gram in any single
  reference (\<open>0\<close> when no reference has it), and the sum of the clipped counts over the
  distinct n-grams of the candidate.
\<close>

definition max_count :: "'a list list \<Rightarrow> int \<Rightarrow> 'a list \<Rightarrow> int" where
  "max_count references n g =
     Max (insert 0 ((\<lambda>reference. int (count_list (n_grams reference n) g)) ` set references))"

definition clipped_sum :: "'a list \<Rightarrow> 'a list list \<Rightarrow> int \<Rightarrow> int" where
  "clipped_sum candidate references n =
     (\<Sum>g \<in> set (n_grams candidate n).
        min (int (count_list (n_grams candidate n) g)) (max_count references n g))"

text \<open>The token lists of the notebook's first example (the example of the BLEU paper).\<close>

definition candidate11 :: "string list" where
  "candidate11 = [''it'', ''is'', ''a'', ''guide'', ''to'', ''action'', ''which'', ''ensures'',
     ''that'', ''the'', ''military'', ''always'', ''obeys'', ''the'', ''commands'', ''of'',
     ''the'', ''party'']"

definition references1 :: "string list list" where
  "references1 =
    [[''it'', ''is'', ''a'', ''guide'', ''to'', ''action'', ''that'', ''ensures'', ''that'',
      ''the'', ''military'', ''will'', ''forever'', ''heed'', ''party'', ''commands''],
     [''it'', ''is'', ''the'', ''guiding'', ''principle'', ''which'', ''guarantees'', ''the'',
      ''military'', ''forces'', ''always'', ''being'', ''under'', ''the'', ''command'', ''of'',
      ''the'', ''party''],
     [''it'', ''is'', ''the'', ''practical'', ''guide'', ''for'', ''the'', ''army'', ''always'',
      ''to'', ''heed'', ''the'', ''directions'', ''of'', ''the'', ''party'']]"

subsection \<open>Brevity penalty\<close>

text \<open>
  The builtin \<open>min\<close> over a generator raises \<open>ValueError\<close> when the generator is empty
  (the message is that of Python 3.11, the notebook's kernel).
\<close>

fun py_min :: "int list \<Rightarrow> error + int" where
  "py_min [] = Inl (ValueError ''min() arg is an empty sequence'')"
| "py_min (x # xs) = Inr (foldl min x xs)"

text \<open>
  \<open>r / c\<close> is Python's true division of two integers: it raises \<open>ZeroDivisionError\<close>
  when \<open>c = 0\<close>. The exponent \<open>1 - r / c\<close> is at most \<open>1\<close> on this branch, so
  \<open>math.exp\<close> cannot overflow.
\<close>

definition brevity_penalty :: "'a list \<Rightarrow> 'a list list \<Rightarrow> error + real" where
  "brevity_penalty candidate references =
     (let c = int (length candidate) in
      case py_min (map (\<lambda>reference. int (length reference)) references) of
        Inl e \<Rightarrow> Inl e
      | Inr r \<Rightarrow>
          if c > r then Inr 1
          else if c = 0 then Inl ZeroDivisionError
          else Inr (exp (1 - real_of_int r / real_of_int c)))"

subsection \<open>Preprocessing\<close>

text \<open>
  \<open>preprocess_text\<close> inspects the run-time type of its argument, so its argument is a
  dynamically typed Python value. The three methods of \<open>str\<close> that it calls consult
  Python's Unicode tables, which are not part of the notebook: they are a parameter of the
  model, over any type \<open>'c\<close> of characters. \<open>lower\<close> of one character is a string,
  since Unicode lower-casing can lengthen a string.
\<close>

record 'c str_methods =
  isspace :: "'c \<Rightarrow> bool"
  isalnum :: "'c \<Rightarrow> bool"
  lower :: "'c \<Rightarrow> 'c list"

datatype 'c pyval =
    PyStr "'c list"
  | PyInt int
  | PyNone
  | PyList "'c pyval list"
  | PyTuple "'c pyval list"

text \<open>
  \<open>str.split()\<close> without a separator: runs of whitespace separate the words, and
  leading and trailing whitespace yields no empty word. The scan carries the word read
  so far.
\<close>

fun split_scan :: "('c \<Rightarrow> bool) \<Rightarrow> 'c list \<Rightarrow> 'c list \<Rightarrow> 'c list list" where
  "split_scan sp word [] = (if word = [] then [] else [word])"
| "split_scan sp word (ch # s) =
     (if sp ch then (if word = [] then split_scan sp [] s else word # split_scan sp [] s)
      else split_scan sp (word @ [ch]) s)"

definition split :: "'c str_methods \<Rightarrow> 'c list \<Rightarrow> 'c list list" where
  "split U s = split_scan (isspace U) [] s"

text \<open>\<open>"".join(char.lower() for char in word if char.isalnum())\<close>\<close>

definition clean_word :: "'c str_methods \<Rightarrow> 'c list \<Rightarrow> 'c list" where
  "clean_word U word = concat (map (lower U) (filter (isalnum U) word))"

text \<open>\<open>sentence.split()\<close> on a value: only a string has the method.\<close>

fun split_method :: "'c str_methods \<Rightarrow> 'c pyval \<Rightarrow> error + 'c list list" where
  "split_method U (PyStr s) = Inr (split U s)"
| "split_method U _ = Inl AttributeError"

text \<open>The outer list comprehension, \<open>for sentence in sentences\<close>, in order.\<close>

fun sentences_loop :: "'c str_methods \<Rightarrow> 'c pyval list \<Rightarrow> error + 'c list list list" where
  "sentences_loop U [] = Inr []"
| "sentences_loop U (sentence # rest) =
     (case split_method U sentence of
        Inl e \<Rightarrow> Inl e
      | Inr words \<Rightarrow>
          (case sentences_loop U rest of
             Inl e \<Rightarrow> Inl e
           | Inr out \<Rightarrow> Inr (map (clean_word U) words # out)))"

fun preprocess_text :: "'c str_methods \<Rightarrow> 'c pyval \<Rightarrow> error + 'c list list list" where
  "preprocess_text U (PyList sentences) = sentences_loop U sentences"
| "preprocess_text U _ = Inl (ValueError ''Expecting a list of strings as input.'')"

text \<open>What the specification calls a sequence of strings: a list whose elements are strings.\<close>

fun is_str :: "'c pyval \<Rightarrow> bool" where
  "is_str (PyStr s) = True"
| "is_str _ = False"

fun is_list :: "'c pyval \<Rightarrow> bool" where
  "is_list (PyList vs) = True"
| "is_list _ = False"

fun is_list_of_str :: "'c pyval \<Rightarrow> bool" where
  "is_list_of_str (PyList vs) = list_all is_str vs"
| "is_list_of_str _ = False"

text \<open>The tokens of one raw string, as the specification describes them.\<close>

definition tokens :: "'c str_methods \<Rightarrow> 'c list \<Rightarrow> 'c list list" where
  "tokens U s = map (clean_word U) (split U s)"

text \<open>
  Python's tables on the code points below 256, as an instance for the worked examples:
  \<open>char\<close> has exactly these 256 values. The tables list the whitespace characters, the
  characters that \<open>lower\<close> changes with their images, and the other alphanumeric
  characters.
\<close>

definition latin1_whitespace :: string where
  "latin1_whitespace =
    [CHR 0x09, CHR 0x0A, CHR 0x0B, CHR 0x0C, CHR 0x0D, CHR 0x1C, CHR 0x1D, CHR 0x1E,
     CHR 0x1F, CHR 0x20, CHR 0x85, CHR 0xA0]"

definition latin1_uppercase :: string where
  "latin1_uppercase =
    [CHR 0x41, CHR 0x42, CHR 0x43, CHR 0x44, CHR 0x45, CHR 0x46, CHR 0x47, CHR 0x48,
     CHR 0x49, CHR 0x4A, CHR 0x4B, CHR 0x4C, CHR 0x4D, CHR 0x4E, CHR 0x4F, CHR 0x50,
     CHR 0x51, CHR 0x52, CHR 0x53, CHR 0x54, CHR 0x55, CHR 0x56, CHR 0x57, CHR 0x58,
     CHR 0x59, CHR 0x5A, CHR 0xC0, CHR 0xC1, CHR 0xC2, CHR 0xC3, CHR 0xC4, CHR 0xC5,
     CHR 0xC6, CHR 0xC7, CHR 0xC8, CHR 0xC9, CHR 0xCA, CHR 0xCB, CHR 0xCC, CHR 0xCD,
     CHR 0xCE, CHR 0xCF, CHR 0xD0, CHR 0xD1, CHR 0xD2, CHR 0xD3, CHR 0xD4, CHR 0xD5,
     CHR 0xD6, CHR 0xD8, CHR 0xD9, CHR 0xDA, CHR 0xDB, CHR 0xDC, CHR 0xDD, CHR 0xDE]"

definition latin1_lowercase :: string where
  "latin1_lowercase =
    [CHR 0x61, CHR 0x62, CHR 0x63, CHR 0x64, CHR 0x65, CHR 0x66, CHR 0x67, CHR 0x68,
     CHR 0x69, CHR 0x6A, CHR 0x6B, CHR 0x6C, CHR 0x6D, CHR 0x6E, CHR 0x6F, CHR 0x70,
     CHR 0x71, CHR 0x72, CHR 0x73, CHR 0x74, CHR 0x75, CHR 0x76, CHR 0x77, CHR 0x78,
     CHR 0x79, CHR 0x7A, CHR 0xE0, CHR 0xE1, CHR 0xE2, CHR 0xE3, CHR 0xE4, CHR 0xE5,
     CHR 0xE6, CHR 0xE7, CHR 0xE8, CHR 0xE9, CHR 0xEA, CHR 0xEB, CHR 0xEC, CHR 0xED,
     CHR 0xEE, CHR 0xEF, CHR 0xF0, CHR 0xF1, CHR 0xF2, CHR 0xF3, CHR 0xF4, CHR 0xF5,
     CHR 0xF6, CHR 0xF8, CHR 0xF9, CHR 0xFA, CHR 0xFB, CHR 0xFC, CHR 0xFD, CHR 0xFE]"

definition latin1_caseless_alnum :: string where
  "latin1_caseless_alnum =
    [CHR 0x30, CHR 0x31, CHR 0x32, CHR 0x33, CHR 0x34, CHR 0x35, CHR 0x36, CHR 0x37,
     CHR 0x38, CHR 0x39, CHR 0xAA, CHR 0xB2, CHR 0xB3, CHR 0xB5, CHR 0xB9, CHR 0xBA,
     CHR 0xBC, CHR 0xBD, CHR 0xBE, CHR 0xDF, CHR 0xFF]"

definition latin1_isspace :: "char \<Rightarrow> bool" where
  "latin1_isspace ch = (ch \<in> set latin1_whitespace)"

definition latin1_isalnum :: "char \<Rightarrow> bool" where
  "latin1_isalnum ch =
     (ch \<in> set latin1_lowercase \<or> ch \<in> set latin1_uppercase \<or> ch \<in> set latin1_caseless_alnum)"

definition latin1_lower :: "char \<Rightarrow> string" where
  "latin1_lower ch =
     (case map_of (zip latin1_uppercase latin1_lowercase) ch of
        None \<Rightarrow> [ch]
      | Some l \<Rightarrow> [l])"

definition latin1 :: "char str_methods" where
  "latin1 = \<lparr>isspace = latin1_isspace, isalnum = latin1_isalnum, lower = latin1_lower\<rparr>"

subsection \<open>The BLEU score of a sentence\<close>

text \<open>
  The loop \<open>for n in range(1, max_n+1)\<close>, appending one ratio per order to
  \<open>precisions\<close>; \<open>p_n / total\<close> is a quotient of integers, taken in the reals.
\<close>

fun precisions_loop ::
  "'a list \<Rightarrow> 'a list list \<Rightarrow> int list \<Rightarrow> real list \<Rightarrow> error + real list" where
  "precisions_loop candidate_seq references_seqs [] precisions = Inr precisions"
| "precisions_loop candidate_seq references_seqs (n # ns) precisions =
     (case n_gram_precision candidate_seq references_seqs n of
        Inl e \<Rightarrow> Inl e
      | Inr (p_n, total') \<Rightarrow>
          precisions_loop candidate_seq references_seqs ns
            (precisions @ [if total' > 0 then real_of_int p_n / real_of_int total' else 0]))"

text \<open>
  \<open>np.mean\<close> of an empty list is not a number (numpy warns and returns \<open>nan\<close>); the
  reals have no such value, so the model reports it as the outcome \<open>MeanOfEmptySlice\<close>.
  \<open>bleu_score_sentence\<close> never takes the mean of an empty list (lemma
  \<open>bleu_score_sentence_returns\<close> below).
\<close>

fun np_mean :: "real list \<Rightarrow> error + real" where
  "np_mean [] = Inl MeanOfEmptySlice"
| "np_mean (x # xs) = Inr (sum_list (x # xs) / real (length (x # xs)))"

definition bleu_score_sentence ::
  "'c str_methods \<Rightarrow> 'c list \<Rightarrow> 'c list list \<Rightarrow> int \<Rightarrow> error + real" where
  "bleu_score_sentence U candidate_str references_strs max_n =
     (case preprocess_text U (PyList [PyStr candidate_str]) of
        Inl e \<Rightarrow> Inl e
      | Inr [] \<Rightarrow> Inl IndexError
      | Inr (candidate_seq # _) \<Rightarrow>
     (case preprocess_text U (PyList (map PyStr references_strs)) of
        Inl e \<Rightarrow> Inl e
      | Inr references_seqs \<Rightarrow>
     (case precisions_loop candidate_seq references_seqs [1 .. max_n] [] of
        Inl e \<Rightarrow> Inl e
      | Inr precisions \<Rightarrow>
          if list_all (\<lambda>p. p = 0) precisions then Inr 0
          else
            (case np_mean (map ln (filter (\<lambda>p. p > 0) precisions)) of
               Inl e \<Rightarrow> Inl e
             | Inr mean \<Rightarrow>
                 (let geometric_mean = exp mean in
                  case brevity_penalty candidate_seq references_seqs of
                    Inl e \<Rightarrow> Inl e
                  | Inr bp \<Rightarrow> Inr (bp * geometric_mean))))))"

text \<open>
  The precision ratio of one order as the specification defines it: numerator over
  denominator, and \<open>0\<close> when the denominator is \<open>0\<close>.
\<close>

definition precision_ratio :: "'a list \<Rightarrow> 'a list list \<Rightarrow> int \<Rightarrow> real" where
  "precision_ratio candidate references n =
     (case n_gram_precision candidate references n of
        Inl e \<Rightarrow> 0
      | Inr (p, t) \<Rightarrow> if t = 0 then 0 else real_of_int p / real_of_int t)"

text \<open>
  The ratios of the orders \<open>1, \<dots>, max_n\<close> on the preprocessed sentences, and the mean
  of the logarithms of the positive ones.
\<close>

definition precision_ratios :: "'c str_methods \<Rightarrow> 'c list \<Rightarrow> 'c list list \<Rightarrow> int \<Rightarrow> real list" where
  "precision_ratios U candidate_str references_strs max_n =
     map (precision_ratio (tokens U candidate_str) (map (tokens U) references_strs)) [1 .. max_n]"

definition mean_log_positive :: "real list \<Rightarrow> real" where
  "mean_log_positive ps =
     sum_list (map ln (filter (\<lambda>p. 0 < p) ps)) / real (length (filter (\<lambda>p. 0 < p) ps))"

section \<open>Properties\<close>

subsection \<open>Counters\<close>

lemma map_of_set_count: "map_of (set_count c k v) = (map_of c)(k \<mapsto> v)"
  by (induction c k v rule: set_count.induct) auto

lemma get_count_set_count:
  "get_count (set_count c k v) k' = (if k' = k then v else get_count c k')"
  by (simp add: get_count_def map_of_set_count)

lemma keys_set_count:
  "keys (set_count c k v) = (if k \<in> set (keys c) then keys c else keys c @ [k])"
  by (induction c k v rule: set_count.induct) (auto simp: keys_def)

lemma distinct_keys_set_count: "distinct (keys c) \<Longrightarrow> distinct (keys (set_count c k v))"
  by (simp add: keys_set_count)

lemma set_keys_set_count: "set (keys (set_count c k v)) = insert k (set (keys c))"
  by (auto simp: keys_set_count)

lemma get_count_notin: "k \<notin> set (keys c) \<Longrightarrow> get_count c k = 0"
  by (simp add: get_count_def keys_def map_of_eq_None_iff[THEN iffD2])

lemma foldl_count_get:
  "get_count (foldl (\<lambda>c x. set_count c x (get_count c x + 1)) c xs) k
     = get_count c k + int (count_list xs k)"
  by (induction xs arbitrary: c) (auto simp: get_count_set_count)

lemma foldl_count_keys:
  "set (keys (foldl (\<lambda>c x. set_count c x (get_count c x + 1)) c xs)) = set (keys c) \<union> set xs"
  by (induction xs arbitrary: c) (auto simp: set_keys_set_count)

lemma foldl_count_distinct:
  "distinct (keys c) \<Longrightarrow> distinct (keys (foldl (\<lambda>c x. set_count c x (get_count c x + 1)) c xs))"
  by (induction xs arbitrary: c) (auto simp: distinct_keys_set_count)

lemma get_count_Counter: "get_count (Counter xs) k = int (count_list xs k)"
  using foldl_count_get[of "[]" xs k] by (simp add: Counter_def get_count_def[of "[]"])

lemma set_keys_Counter: "set (keys (Counter xs)) = set xs"
  using foldl_count_keys[of "[]" xs] by (simp add: Counter_def keys_def[of "[]"])

lemma distinct_keys_Counter: "distinct (keys (Counter xs))"
  using foldl_count_distinct[of "[]" xs] by (simp add: Counter_def keys_def[of "[]"])

lemma snd_eq_get_count:
  "distinct (keys c) \<Longrightarrow> (k, v) \<in> set c \<Longrightarrow> get_count c k = v"
  by (simp add: get_count_def keys_def)

lemma map_counter_conv:
  "distinct (keys c) \<Longrightarrow> map (\<lambda>(k, v). f k v) c = map (\<lambda>k. f k (get_count c k)) (keys c)"
  by (auto simp: keys_def snd_eq_get_count)

lemma sum_counter:
  assumes "distinct (keys c)"
  shows "sum_list (map (\<lambda>(k, v). f k v) c) = (\<Sum>k \<in> set (keys c). f k (get_count c k))"
  using assms by (simp add: map_counter_conv sum_list_distinct_conv_sum_set)

subsection \<open>The clipped counts\<close>

lemma foldl_max_get:
  "get_count (foldl (\<lambda>m g. set_count m g (max (get_count m g) (h g))) m ks) k
     = (if k \<in> set ks then max (get_count m k) (h k) else get_count m k)"
  by (induction ks arbitrary: m) (auto simp: get_count_set_count)

lemma get_count_merge_max:
  assumes "0 \<le> get_count m k"
  shows "get_count (merge_max m (Counter xs)) k = max (get_count m k) (int (count_list xs k))"
proof (cases "k \<in> set xs")
  case True
  then show ?thesis
    by (simp add: merge_max_def foldl_max_get set_keys_Counter get_count_Counter)
next
  case False
  then have "count_list xs k = 0" by simp
  with False assms show ?thesis
    by (simp add: merge_max_def foldl_max_get set_keys_Counter)
qed

lemma foldl_merge_max_get:
  assumes "0 \<le> get_count m k"
  shows "get_count (foldl (\<lambda>m r. merge_max m (Counter (f r))) m rs) k
           = Max (insert (get_count m k) ((\<lambda>r. int (count_list (f r) k)) ` set rs))"
  using assms
proof (induction rs arbitrary: m)
  case Nil
  then show ?case by simp
next
  case (Cons r rs)
  let ?m = "merge_max m (Counter (f r))"
  let ?S = "(\<lambda>r. int (count_list (f r) k)) ` set rs"
  have g: "get_count ?m k = max (get_count m k) (int (count_list (f r) k))"
    using Cons.prems by (rule get_count_merge_max)
  then have "0 \<le> get_count ?m k" using Cons.prems by simp
  then have "get_count (foldl (\<lambda>m r. merge_max m (Counter (f r))) ?m rs) k
               = Max (insert (get_count ?m k) ?S)"
    by (rule Cons.IH)
  also have "\<dots> = Max (insert (get_count m k) (insert (int (count_list (f r) k)) ?S))"
  proof (cases "?S = {}")
    case True
    then show ?thesis by (simp add: g)
  next
    case False
    then show ?thesis by (simp add: g max.assoc)
  qed
  finally show ?case by simp
qed

lemma get_count_max_reference:
  "get_count (max_reference references n) g = max_count references n g"
  unfolding max_reference_def max_count_def
  using foldl_merge_max_get[of "[]" g "\<lambda>r. n_grams r n" references]
  by (simp add: get_count_def[of "[]"])

lemma max_count_nonneg: "0 \<le> max_count references n g"
  by (simp add: max_count_def)

lemma length_n_grams: "int (length (n_grams xs n)) = max 0 (int (length xs) - n + 1)"
  by (simp add: n_grams_def)

lemma sum_values_Counter: "sum_list (values_of (Counter xs)) = int (length xs)"
proof -
  have "sum_list (values_of (Counter xs)) = sum_list (map (\<lambda>(k, v). v) (Counter xs))"
    by (simp add: values_of_def case_prod_unfold)
  also have "\<dots> = (\<Sum>k \<in> set xs. int (count_list xs k))"
    by (simp add: sum_counter[OF distinct_keys_Counter] set_keys_Counter get_count_Counter)
  also have "\<dots> = int (length xs)"
    using sum_count_set[of xs "set xs"] by (simp flip: of_nat_sum)
  finally show ?thesis .
qed

lemma n_gram_precision_eq:
  assumes "1 \<le> n"
  shows "n_gram_precision candidate references n
           = Inr (clipped_sum candidate references n, int (length (n_grams candidate n)))"
proof -
  let ?C = "Counter (n_grams candidate n)"
  let ?M = "max_reference references n"
  have "sum_list (values_of (map (\<lambda>(ng, count). (ng, min count (get_count ?M ng))) ?C))
          = sum_list (map (\<lambda>(ng, count). min count (get_count ?M ng)) ?C)"
    by (simp add: values_of_def case_prod_unfold comp_def)
  also have "\<dots> = clipped_sum candidate references n"
    by (simp add: sum_counter[OF distinct_keys_Counter] set_keys_Counter get_count_Counter
        get_count_max_reference clipped_sum_def)
  finally show ?thesis
    using assms by (simp add: n_gram_precision_def Let_def sum_values_Counter)
qed

lemma clipped_sum_le: "clipped_sum candidate references n \<le> int (length (n_grams candidate n))"
proof -
  have "clipped_sum candidate references n
          \<le> (\<Sum>g \<in> set (n_grams candidate n). int (count_list (n_grams candidate n) g))"
    unfolding clipped_sum_def by (rule sum_mono) simp
  also have "\<dots> = int (length (n_grams candidate n))"
    using sum_count_set[of "n_grams candidate n" "set (n_grams candidate n)"]
    by (simp flip: of_nat_sum)
  finally show ?thesis .
qed

lemma clipped_sum_nonneg: "0 \<le> clipped_sum candidate references n"
  unfolding clipped_sum_def by (rule sum_nonneg) (simp add: max_count_nonneg)

subsection \<open>Claims about \<open>n_gram_precision\<close>\<close>

lemma paper_example: "n_gram_precision candidate11 references1 1 = Inr (17, 18)"
  by code_simp

text \<open>
  C1. For every order \<open>n \<ge> 1\<close>, \<open>n_gram_precision\<close> returns the pair whose denominator
  is the number of windows of \<open>n\<close> consecutive candidate tokens (one at each offset
  \<open>i\<close>, each of \<open>n\<close> tokens) and whose numerator is the sum, over the distinct n-grams
  of the candidate, of the minimum of its count in the candidate and the largest of its
  counts in the single references; that largest count is \<open>0\<close> for an n-gram that no
  reference has. On the example of the paper, with three references and \<open>n = 1\<close>, the
  pair is \<open>(17, 18)\<close>.
\<close>

theorem n_gram_precision_clipped_counts:
  "(1 \<le> n \<longrightarrow>
      n_gram_precision candidate references n
        = Inr (\<Sum>g \<in> set (n_grams candidate n).
                 min (int (count_list (n_grams candidate n) g))
                     (Max (insert 0 ((\<lambda>reference. int (count_list (n_grams reference n) g))
                                        ` set references))),
               int (length (n_grams candidate n)))
      \<and> length (n_grams candidate n) = nat (int (length candidate) - n + 1)
      \<and> (\<forall>i < length (n_grams candidate n).
            n_grams candidate n ! i = take (nat n) (drop i candidate)
            \<and> int (length (n_grams candidate n ! i)) = n))
   \<and> ((\<forall>reference \<in> set references. g \<notin> set (n_grams reference n))
        \<longrightarrow> Max (insert 0 ((\<lambda>reference. int (count_list (n_grams reference n) g))
                               ` set references)) = 0)
   \<and> n_gram_precision candidate11 references1 1 = Inr (17, 18)"
proof -
  have "n_grams candidate n ! i = take (nat n) (drop i candidate)
          \<and> int (length (n_grams candidate n ! i)) = n"
    if "1 \<le> n" "i < length (n_grams candidate n)" for i
    using that by (auto simp: n_grams_def)
  moreover have "length (n_grams candidate n) = nat (int (length candidate) - n + 1)"
    by (simp add: n_grams_def)
  moreover have "Max (insert 0 ((\<lambda>reference. int (count_list (n_grams reference n) g))
                                  ` set references)) = 0"
    if "\<forall>reference \<in> set references. g \<notin> set (n_grams reference n)"
  proof -
    from that have "insert 0 ((\<lambda>reference. int (count_list (n_grams reference n) g))
                                ` set references) = {0}"
      by auto
    then show ?thesis by (simp only: Max_singleton)
  qed
  ultimately show ?thesis
    using n_gram_precision_eq[of n candidate references] paper_example
    by (simp add: clipped_sum_def max_count_def)
qed

theorem n_gram_precision_clipped_counts_witness:
  "(\<Sum>g \<in> set (n_grams candidate11 1).
      min (int (count_list (n_grams candidate11 1) g))
          (Max (insert 0 ((\<lambda>reference. int (count_list (n_grams reference 1) g))
                             ` set references1)))) = 17
   \<and> int (length (n_grams candidate11 1)) = 18
   \<and> Max (insert 0 ((\<lambda>reference. int (count_list (n_grams reference 1) [''obeys'']))
                       ` set references1)) = 0"
proof -
  have h: "(1::int) \<le> 1" by simp
  note t = n_gram_precision_clipped_counts[of 1 candidate11 references1 "[''obeys'']"]
  from h t have a: "n_gram_precision candidate11 references1 1
      = Inr (\<Sum>g \<in> set (n_grams candidate11 1).
               min (int (count_list (n_grams candidate11 1) g))
                   (Max (insert 0 ((\<lambda>reference. int (count_list (n_grams reference 1) g))
                                      ` set references1))),
             int (length (n_grams candidate11 1)))"
    by blast
  from t have b: "n_gram_precision candidate11 references1 1 = Inr (17, 18)"
    by blast
  have c: "\<forall>reference \<in> set references1. [''obeys''] \<notin> set (n_grams reference 1)"
    by code_simp
  from t c have "Max (insert 0 ((\<lambda>reference. int (count_list (n_grams reference 1) [''obeys'']))
                                  ` set references1)) = 0"
    by blast
  with a b show ?thesis by simp
qed

text \<open>
  C2. For every order \<open>n \<ge> 1\<close> the numerator is at most the denominator, and the
  denominator is \<open>max(0, len(candidate) - n + 1)\<close>: it is \<open>0\<close> when the candidate is
  shorter than \<open>n\<close>.
\<close>

theorem n_gram_precision_bounds:
  assumes "1 \<le> n"
  shows "\<exists>p t. n_gram_precision candidate references n = Inr (p, t)
           \<and> 0 \<le> p \<and> p \<le> t
           \<and> t = max 0 (int (length candidate) - n + 1)
           \<and> (int (length candidate) < n \<longrightarrow> t = 0)"
proof -
  let ?p = "clipped_sum candidate references n"
  let ?t = "int (length (n_grams candidate n))"
  have "n_gram_precision candidate references n = Inr (?p, ?t)"
    using assms by (rule n_gram_precision_eq)
  moreover have "0 \<le> ?p" by (rule clipped_sum_nonneg)
  moreover have "?p \<le> ?t" by (rule clipped_sum_le)
  moreover have "?t = max 0 (int (length candidate) - n + 1)" by (rule length_n_grams)
  ultimately show ?thesis by auto
qed

theorem n_gram_precision_bounds_witness:
  "\<exists>p t. n_gram_precision [''a'', ''b''] [[''a'', ''c'']] 3 = Inr (p, t) \<and> p \<le> t \<and> t = 0"
  using n_gram_precision_bounds[of 3 "[''a'', ''b'']" "[[''a'', ''c'']]"]
  by auto

text \<open>
  C5. Reordering the references does not change the result of \<open>n_gram_precision\<close>
  (for any order \<open>n\<close>, hence for every \<open>n \<ge> 1\<close>).
\<close>

theorem n_gram_precision_reorder:
  assumes "mset references' = mset references"
  shows "n_gram_precision candidate references' n = n_gram_precision candidate references n"
proof (cases "1 \<le> n")
  case True
  from assms have "set references' = set references" by (rule mset_eq_setD)
  then have "clipped_sum candidate references' n = clipped_sum candidate references n"
    by (simp add: clipped_sum_def max_count_def)
  with True show ?thesis by (simp add: n_gram_precision_eq)
next
  case False
  then show ?thesis by (simp add: n_gram_precision_def)
qed

theorem n_gram_precision_reorder_witness:
  "n_gram_precision [''a'', ''b'', ''a''] [[''a'', ''a''], [''b''], [''a'']] 1
     = n_gram_precision [''a'', ''b'', ''a''] [[''b''], [''a''], [''a'', ''a'']] 1"
  using n_gram_precision_reorder[of "[[''a'', ''a''], [''b''], [''a'']]"
      "[[''b''], [''a''], [''a'', ''a'']]" "[''a'', ''b'', ''a'']" 1]
  by simp

text \<open>
  C9. \<open>n_gram_precision\<close> raises its \<open>ValueError\<close> (the specification's
  InvalidOrderError) exactly when \<open>n < 1\<close>; it raises nothing else, and for every
  \<open>n \<ge> 1\<close> it returns a result.
\<close>

theorem n_gram_precision_order_error:
  "(n_gram_precision candidate references n = Inl (ValueError ''n must be greater or equal 1.'')
      \<longleftrightarrow> n < 1)
   \<and> ((\<exists>e. n_gram_precision candidate references n = Inl e) \<longleftrightarrow> n < 1)
   \<and> ((\<exists>r. n_gram_precision candidate references n = Inr r) \<longleftrightarrow> 1 \<le> n)"
  by (auto simp: n_gram_precision_def Let_def)

theorem n_gram_precision_order_error_witness:
  "n_gram_precision [''a''] [[''a'']] 0 = Inl (ValueError ''n must be greater or equal 1.'')
   \<and> (\<exists>r. n_gram_precision [''a''] [[''a'']] 1 = Inr r)"
  using n_gram_precision_order_error[of "[''a'']" "[[''a'']]" 0]
    n_gram_precision_order_error[of "[''a'']" "[[''a'']]" 1]
  by simp

subsection \<open>Claims about \<open>brevity_penalty\<close>\<close>

lemma foldl_min_Min: "foldl min (x::int) xs = Min (set (x # xs))"
proof -
  have "(\<lambda>y s. min s y) = (min :: int \<Rightarrow> int \<Rightarrow> int)"
    by (intro ext) (simp add: min.commute)
  then show ?thesis
    by (simp only: foldl_conv_fold Min.set_eq_fold)
qed

lemma py_min_Cons:
  assumes "xs \<noteq> []"
  shows "py_min xs = Inr (Min (set xs))"
proof (cases xs)
  case Nil
  with assms show ?thesis by simp
next
  case (Cons y ys)
  then show ?thesis by (simp only: py_min.simps foldl_min_Min)
qed

lemma py_min_lengths:
  assumes "references \<noteq> []"
  shows "py_min (map (\<lambda>reference. int (length reference)) references)
           = Inr (int (Min (length ` set references)))"
proof -
  have "Min (set (map (\<lambda>reference. int (length reference)) references))
          = Min (int ` (length ` set references))"
    by (simp add: image_image)
  also have "\<dots> = int (Min (length ` set references))"
    using assms by (intro mono_Min_commute[symmetric]) (auto simp: mono_def)
  finally show ?thesis using assms by (simp add: py_min_Cons)
qed

text \<open>
  C4. For a non-empty candidate and at least one reference, with \<open>c\<close> the length of the
  candidate and \<open>r\<close> the least length of a reference, \<open>brevity_penalty\<close> returns
  \<open>1\<close> when \<open>c > r\<close> and \<open>exp (1 - r / c)\<close> when \<open>c \<le> r\<close>.
\<close>

theorem brevity_penalty_value:
  assumes "candidate \<noteq> []" and "references \<noteq> []"
  shows "brevity_penalty candidate references
           = Inr (if length candidate > Min (length ` set references) then 1
                  else exp (1 - real (Min (length ` set references)) / real (length candidate)))"
  using assms by (simp add: brevity_penalty_def py_min_lengths)

theorem brevity_penalty_value_witness:
  "brevity_penalty [''A'', ''test'']
     [[''A'', ''test'', ''hello''], [''Another'', ''test'', ''longer'', ''better?''],
      [''And'', ''another'', ''test'', ''longer'', ''worse!'']] = Inr (exp (1 - 3 / 2))
   \<and> brevity_penalty [''A'', ''test'', ''hello''] [[''A'', ''test''], [''Another'', ''test'']]
       = Inr 1"
  using brevity_penalty_value[of "[''A'', ''test'']"
      "[[''A'', ''test'', ''hello''], [''Another'', ''test'', ''longer'', ''better?''],
        [''And'', ''another'', ''test'', ''longer'', ''worse!'']]"]
    brevity_penalty_value[of "[''A'', ''test'', ''hello'']" "[[''A'', ''test''], [''Another'', ''test'']]"]
  by simp

text \<open>
  C7. With at least one reference, \<open>brevity_penalty\<close> returns a value for every
  candidate of length at least \<open>1\<close> (the division is by \<open>c \<noteq> 0\<close>), and for the empty
  candidate it fails with the division by zero; it does not return \<open>0\<close>.
\<close>

theorem brevity_penalty_division:
  assumes "references \<noteq> []"
  shows "(candidate \<noteq> [] \<longrightarrow> (\<exists>v. brevity_penalty candidate references = Inr v))
       \<and> (candidate = [] \<longrightarrow> brevity_penalty candidate references = Inl ZeroDivisionError)"
  using assms by (simp add: brevity_penalty_def py_min_lengths Let_def)

theorem brevity_penalty_division_witness:
  "(\<exists>v. brevity_penalty [''a''] [[''a'', ''b''], [''c'', ''d'', ''e'']] = Inr v)
   \<and> brevity_penalty [] [[''a'', ''b''], [''c'', ''d'', ''e'']] = Inl ZeroDivisionError"
  using brevity_penalty_division[of "[[''a'', ''b''], [''c'', ''d'', ''e'']]" "[''a'']"]
    brevity_penalty_division[of "[[''a'', ''b''], [''c'', ''d'', ''e'']]" "[]"]
  by simp

subsection \<open>Claims about \<open>preprocess_text\<close>\<close>

lemmas latin1_defs = latin1_def latin1_isspace_def latin1_isalnum_def latin1_lower_def
  latin1_whitespace_def latin1_uppercase_def latin1_lowercase_def latin1_caseless_alnum_def

lemma split_scan_words:
  assumes "\<forall>ch \<in> set word. \<not> sp ch" and "w \<in> set (split_scan sp word s)"
  shows "w \<noteq> [] \<and> (\<forall>ch \<in> set w. \<not> sp ch)"
  using assms
proof (induction s arbitrary: word)
  case Nil
  then show ?case by (simp split: if_splits)
next
  case (Cons ch s)
  show ?case
  proof (cases "sp ch")
    case True
    with Cons.prems have "w = word \<and> word \<noteq> [] \<or> w \<in> set (split_scan sp [] s)"
      by (simp split: if_splits)
    then show ?thesis
    proof
      assume "w = word \<and> word \<noteq> []"
      with Cons.prems(1) show ?thesis by simp
    next
      assume "w \<in> set (split_scan sp [] s)"
      then show ?thesis by (intro Cons.IH[of "[]"]) simp_all
    qed
  next
    case False
    with Cons.prems have "w \<in> set (split_scan sp (word @ [ch]) s)" by simp
    moreover from False Cons.prems(1) have "\<forall>c \<in> set (word @ [ch]). \<not> sp c" by simp
    ultimately show ?thesis by (intro Cons.IH[of "word @ [ch]"])
  qed
qed

lemma concat_split_scan: "concat (split_scan sp word s) = word @ filter (\<lambda>ch. \<not> sp ch) s"
  by (induction sp word s rule: split_scan.induct) auto

lemma split_scan_gap:
  "\<forall>ch \<in> set gap. sp ch \<Longrightarrow> split_scan sp [] (gap @ s) = split_scan sp [] s"
  by (induction gap) auto

lemma split_scan_run:
  "\<forall>ch \<in> set run. \<not> sp ch \<Longrightarrow> split_scan sp word (run @ s) = split_scan sp (word @ run) s"
  by (induction run arbitrary: word) auto

lemma split_scan_word_end:
  "word \<noteq> [] \<Longrightarrow> s = [] \<or> sp (hd s) \<Longrightarrow> split_scan sp word s = word # split_scan sp [] s"
  by (cases s) auto

lemma split_first_word:
  assumes "\<forall>ch \<in> set gap. sp ch" and "word \<noteq> []" and "\<forall>ch \<in> set word. \<not> sp ch"
    and "s = [] \<or> sp (hd s)"
  shows "split_scan sp [] (gap @ word @ s) = word # split_scan sp [] s"
  using assms by (simp add: split_scan_gap split_scan_run split_scan_word_end)

lemma sentences_loop_strs:
  "sentences_loop U (map PyStr sentences) = Inr (map (tokens U) sentences)"
  by (induction sentences) (simp_all add: tokens_def)

lemma clean_word_no_alnum: "\<forall>ch \<in> set word. \<not> isalnum U ch \<Longrightarrow> clean_word U word = []"
  by (simp add: clean_word_def filter_False)

lemma sentences_loop_Inr: "(\<exists>out. sentences_loop U vs = Inr out) \<longleftrightarrow> list_all is_str vs"
proof (induction vs)
  case Nil
  then show ?case by simp
next
  case (Cons v vs)
  then show ?case by (cases v) (auto split: sum.splits)
qed

lemma sentences_loop_Inl: "sentences_loop U vs = Inl e \<Longrightarrow> e = AttributeError"
proof (induction vs arbitrary: e)
  case Nil
  then show ?case by simp
next
  case (Cons v vs)
  then show ?case by (cases v) (auto split: sum.splits)
qed

lemma split_words:
  assumes "w \<in> set (split U s)"
  shows "w \<noteq> [] \<and> (\<forall>ch \<in> set w. \<not> isspace U ch)"
  using split_scan_words[of "[]" "isspace U" w s] assms by (simp add: split_def)

lemma concat_split: "concat (split U s) = filter (\<lambda>ch. \<not> isspace U ch) s"
  by (simp add: split_def concat_split_scan)

lemma split_gap:
  assumes "\<forall>ch \<in> set gap. isspace U ch"
  shows "split U gap = []"
  using split_scan_gap[of gap "isspace U" "[]"] assms by (simp add: split_def)

lemma split_word:
  assumes "\<forall>ch \<in> set gap. isspace U ch" and "word \<noteq> []"
    and "\<forall>ch \<in> set word. \<not> isspace U ch" and "rest = [] \<or> isspace U (hd rest)"
  shows "split U (gap @ word @ rest) = word # split U rest"
  using assms by (simp add: split_def split_first_word)

lemma preprocess_text_strs:
  "preprocess_text U (PyList (map PyStr sentences)) = Inr (map (tokens U) sentences)"
  by (simp add: sentences_loop_strs)

lemma hello_example:
  "preprocess_text latin1 (PyList [PyStr ''Hello, this is some text.''])
     = Inr [[''hello'', ''this'', ''is'', ''some'', ''text'']]"
  by code_simp

lemma punctuation_example:
  "preprocess_text latin1 (PyList [PyStr ''a - b'']) = Inr [[''a'', '''', ''b'']]"
  by code_simp

text \<open>
  C6. On a list of strings \<open>preprocess_text\<close> returns one token list per string, in
  the order of the input: the string is split on whitespace, and in each word the
  characters that are not alphanumeric are dropped and the others are lower-cased. The
  words of \<open>split\<close> are the maximal runs without whitespace: they are not empty and
  hold no whitespace, together they are the string without its whitespace, a string of
  whitespace has no word, and a word that ends at whitespace or at the end of the string
  is split off as it is. A word without an alphanumeric character becomes the empty
  token and stays in the list. The two examples are the notebook's test and a sentence
  with a word of punctuation.
\<close>

theorem preprocess_text_tokens:
  "preprocess_text U (PyList (map PyStr sentences))
     = Inr (map (\<lambda>sentence.
                   map (\<lambda>word. concat (map (lower U) (filter (isalnum U) word)))
                     (split U sentence))
              sentences)
   \<and> (\<forall>w \<in> set (split U s). w \<noteq> [] \<and> (\<forall>ch \<in> set w. \<not> isspace U ch))
   \<and> concat (split U s) = filter (\<lambda>ch. \<not> isspace U ch) s
   \<and> ((\<forall>ch \<in> set gap. isspace U ch) \<longrightarrow> split U gap = [])
   \<and> ((\<forall>ch \<in> set gap. isspace U ch) \<and> word \<noteq> [] \<and> (\<forall>ch \<in> set word. \<not> isspace U ch)
        \<and> (rest = [] \<or> isspace U (hd rest))
        \<longrightarrow> split U (gap @ word @ rest) = word # split U rest)
   \<and> ((\<forall>ch \<in> set word. \<not> isalnum U ch)
        \<longrightarrow> concat (map (lower U) (filter (isalnum U) word)) = [])
   \<and> preprocess_text latin1 (PyList [PyStr ''Hello, this is some text.''])
       = Inr [[''hello'', ''this'', ''is'', ''some'', ''text'']]
   \<and> preprocess_text latin1 (PyList [PyStr ''a - b'']) = Inr [[''a'', '''', ''b'']]"
proof -
  have "map (tokens U) sentences
          = map (\<lambda>sentence.
                   map (\<lambda>word. concat (map (lower U) (filter (isalnum U) word)))
                     (split U sentence))
              sentences"
    by (simp add: tokens_def clean_word_def)
  then have "preprocess_text U (PyList (map PyStr sentences))
     = Inr (map (\<lambda>sentence.
                   map (\<lambda>word. concat (map (lower U) (filter (isalnum U) word)))
                     (split U sentence))
              sentences)"
    by (simp only: preprocess_text_strs)
  moreover have "\<forall>w \<in> set (split U s). w \<noteq> [] \<and> (\<forall>ch \<in> set w. \<not> isspace U ch)"
    using split_words by blast
  moreover have "(\<forall>ch \<in> set word. \<not> isalnum U ch)
        \<longrightarrow> concat (map (lower U) (filter (isalnum U) word)) = []"
    using clean_word_no_alnum[of word U] by (simp add: clean_word_def)
  moreover have "(\<forall>ch \<in> set gap. isspace U ch) \<and> word \<noteq> [] \<and> (\<forall>ch \<in> set word. \<not> isspace U ch)
        \<and> (rest = [] \<or> isspace U (hd rest))
        \<longrightarrow> split U (gap @ word @ rest) = word # split U rest"
    using split_word[of gap U word rest] by blast
  moreover have "(\<forall>ch \<in> set gap. isspace U ch) \<longrightarrow> split U gap = []"
    using split_gap[of gap U] by blast
  ultimately show ?thesis
    using concat_split[of U s] hello_example punctuation_example by blast
qed

theorem preprocess_text_tokens_witness:
  "preprocess_text latin1
     (PyList [PyStr ''Hello, this is some text.'', PyStr ''This is a second sentence!''])
     = Inr [[''hello'', ''this'', ''is'', ''some'', ''text''],
            [''this'', ''is'', ''a'', ''second'', ''sentence'']]
   \<and> split latin1 ''  it's - ok'' = ''it's'' # split latin1 '' - ok''
   \<and> concat (map (lower latin1) (filter (isalnum latin1) ''?!'')) = []"
proof -
  note t = preprocess_text_tokens[where U = latin1
      and sentences = "[''Hello, this is some text.'', ''This is a second sentence!'']"
      and gap = "''  ''" and word = "''it's''" and rest = "'' - ok''"]
  note t' = preprocess_text_tokens[where U = latin1 and word = "''?!''"]
  have a: "\<forall>ch \<in> set ''  ''. isspace latin1 ch" by (simp add: latin1_defs)
  have b: "\<forall>ch \<in> set ''it's''. \<not> isspace latin1 ch" by (simp add: latin1_defs)
  have c: "'' - ok'' = [] \<or> isspace latin1 (hd '' - ok'')" by (simp add: latin1_defs)
  have d: "\<forall>ch \<in> set ''?!''. \<not> isalnum latin1 ch" by (simp add: latin1_defs)
  have e: "map (\<lambda>sentence.
                   map (\<lambda>word. concat (map (lower latin1) (filter (isalnum latin1) word)))
                     (split latin1 sentence))
              [''Hello, this is some text.'', ''This is a second sentence!'']
         = [[''hello'', ''this'', ''is'', ''some'', ''text''],
            [''this'', ''is'', ''a'', ''second'', ''sentence'']]"
    by code_simp
  from t a b c have "split latin1 (''  '' @ ''it's'' @ '' - ok'') = ''it's'' # split latin1 '' - ok''"
    by blast
  moreover from t' d have "concat (map (lower latin1) (filter (isalnum latin1) ''?!'')) = []"
    by blast
  moreover have "preprocess_text latin1
     (PyList (map PyStr [''Hello, this is some text.'', ''This is a second sentence!'']))
     = Inr [[''hello'', ''this'', ''is'', ''some'', ''text''],
            [''this'', ''is'', ''a'', ''second'', ''sentence'']]"
    using t[THEN conjunct1] by (simp only: e)
  ultimately show ?thesis by simp
qed

text \<open>
  C8, as the code has it. \<open>preprocess_text\<close> raises its \<open>ValueError\<close> (the
  specification's InputTypeError) exactly when its argument is not a list: a string
  passed directly is rejected with it, and every list of strings is accepted.
\<close>

theorem preprocess_text_type_check:
  "(preprocess_text U v = Inl (ValueError ''Expecting a list of strings as input.'')
      \<longleftrightarrow> \<not> is_list v)
   \<and> preprocess_text U (PyStr s) = Inl (ValueError ''Expecting a list of strings as input.'')
   \<and> (is_list_of_str v \<longrightarrow> (\<exists>out. preprocess_text U v = Inr out))"
proof (cases v)
  case (PyList vs)
  have "sentences_loop U vs \<noteq> Inl (ValueError ''Expecting a list of strings as input.'')"
    using sentences_loop_Inl[of U vs] by auto
  with PyList show ?thesis by (simp add: sentences_loop_Inr)
qed simp_all

theorem preprocess_text_type_check_witness:
  "preprocess_text latin1 (PyStr ''Hello'')
     = Inl (ValueError ''Expecting a list of strings as input.'')
   \<and> preprocess_text latin1 (PyTuple [PyStr ''Hello''])
     = Inl (ValueError ''Expecting a list of strings as input.'')
   \<and> (\<exists>out. preprocess_text latin1 (PyList [PyStr ''Hello'', PyStr ''you'']) = Inr out)"
  using preprocess_text_type_check[of latin1 "PyTuple [PyStr ''Hello'']" "''Hello''"]
    preprocess_text_type_check[of latin1 "PyList [PyStr ''Hello'', PyStr ''you'']" "''Hello''"]
  by simp

text \<open>
  C8 as stated fails: the list \<open>[1]\<close> is not a sequence of strings, and it is not
  rejected with the \<open>ValueError\<close>; the call of \<open>split\<close> on the integer raises
  \<open>AttributeError\<close>.
\<close>

theorem preprocess_text_non_string_element:
  "\<not> is_list_of_str (PyList [PyInt 1] :: char pyval)
   \<and> preprocess_text latin1 (PyList [PyInt 1]) = Inl AttributeError
   \<and> preprocess_text latin1 (PyList [PyInt 1])
       \<noteq> Inl (ValueError ''Expecting a list of strings as input.'')"
  by simp

subsection \<open>Claims about \<open>bleu_score_sentence\<close>\<close>

lemma precision_ratio_eq:
  "1 \<le> n \<Longrightarrow> precision_ratio candidate references n
     = (if length (n_grams candidate n) = 0 then 0
        else real_of_int (clipped_sum candidate references n)
               / real (length (n_grams candidate n)))"
  by (simp add: precision_ratio_def n_gram_precision_eq)

lemma precision_ratio_nonneg: "0 \<le> precision_ratio candidate references n"
proof (cases "1 \<le> n")
  case True
  then show ?thesis
    using clipped_sum_nonneg[of candidate references n] by (simp add: precision_ratio_eq)
next
  case False
  then show ?thesis by (simp add: precision_ratio_def n_gram_precision_def)
qed

lemma precisions_loop_eq:
  assumes "\<forall>n \<in> set ns. 1 \<le> n"
  shows "precisions_loop candidate references ns precisions
           = Inr (precisions @ map (precision_ratio candidate references) ns)"
  using assms
proof (induction ns arbitrary: precisions)
  case Nil
  then show ?case by simp
next
  case (Cons n ns)
  then have n: "1 \<le> n" by simp
  have "(if int (length (n_grams candidate n)) > 0
         then real_of_int (clipped_sum candidate references n)
                / real_of_int (int (length (n_grams candidate n)))
         else 0) = precision_ratio candidate references n"
    using n by (simp add: precision_ratio_eq)
  with Cons n show ?case by (simp add: n_gram_precision_eq)
qed

lemma max_count_no_references: "max_count [] n g = 0"
  by (simp add: max_count_def)

lemma precision_ratio_pos_nonempty:
  assumes "1 \<le> n" and "precision_ratio candidate references n \<noteq> 0"
  shows "candidate \<noteq> [] \<and> references \<noteq> []"
proof -
  from assms have len: "length (n_grams candidate n) \<noteq> 0"
    and cs: "clipped_sum candidate references n \<noteq> 0"
    by (auto simp: precision_ratio_eq split: if_splits)
  from len assms(1) have "candidate \<noteq> []" by (auto simp: n_grams_def)
  moreover have "references \<noteq> []"
  proof
    assume "references = []"
    then have "clipped_sum candidate references n = 0"
      by (simp add: clipped_sum_def max_count_no_references)
    with cs show False by simp
  qed
  ultimately show ?thesis by simp
qed

lemma upto_ge: "n \<in> set [1 .. max_n] \<Longrightarrow> 1 \<le> n"
  by simp

lemma brevity_penalty_Inr:
  assumes "candidate \<noteq> []" and "references \<noteq> []"
  shows "\<exists>bp. brevity_penalty candidate references = Inr bp"
  using assms by (simp add: brevity_penalty_def py_min_lengths Let_def)

lemma np_mean_eq: "xs \<noteq> [] \<Longrightarrow> np_mean xs = Inr (sum_list xs / real (length xs))"
  by (cases xs) simp_all

lemma bleu_unfold:
  "bleu_score_sentence U candidate_str references_strs max_n =
    (let candidate_seq = tokens U candidate_str;
         references_seqs = map (tokens U) references_strs;
         precisions = precision_ratios U candidate_str references_strs max_n
     in if list_all (\<lambda>p. p = 0) precisions then Inr 0
        else (case np_mean (map ln (filter (\<lambda>p. p > 0) precisions)) of
               Inl e \<Rightarrow> Inl e
             | Inr mean \<Rightarrow>
                 (case brevity_penalty candidate_seq references_seqs of
                    Inl e \<Rightarrow> Inl e
                  | Inr bp \<Rightarrow> Inr (bp * exp mean))))"
proof -
  have a: "preprocess_text U (PyList [PyStr candidate_str]) = Inr [tokens U candidate_str]"
    using preprocess_text_strs[of U "[candidate_str]"] by simp
  have b: "precisions_loop (tokens U candidate_str) (map (tokens U) references_strs) [1 .. max_n] []
             = Inr (precision_ratios U candidate_str references_strs max_n)"
    by (simp add: precisions_loop_eq precision_ratios_def)
  show ?thesis
    unfolding bleu_score_sentence_def
    by (simp only: a preprocess_text_strs sum.case list.case b Let_def)
qed

lemma bleu_all_zero:
  assumes "\<forall>p \<in> set (precision_ratios U candidate_str references_strs max_n). p = 0"
  shows "bleu_score_sentence U candidate_str references_strs max_n = Inr 0"
  using assms by (simp add: bleu_unfold list_all_iff)

lemma bleu_some_positive:
  assumes ex: "\<exists>p \<in> set (precision_ratios U candidate_str references_strs max_n). p \<noteq> 0"
  shows "\<exists>bp. brevity_penalty (tokens U candidate_str) (map (tokens U) references_strs) = Inr bp
           \<and> bleu_score_sentence U candidate_str references_strs max_n
                = Inr (bp * exp (mean_log_positive
                        (precision_ratios U candidate_str references_strs max_n)))"
proof -
  let ?ps = "precision_ratios U candidate_str references_strs max_n"
  let ?c = "tokens U candidate_str"
  let ?r = "map (tokens U) references_strs"
  from ex obtain n where n: "1 \<le> n" and p: "precision_ratio ?c ?r n \<noteq> 0"
    by (auto simp: precision_ratios_def)
  then have "?c \<noteq> [] \<and> ?r \<noteq> []" by (rule precision_ratio_pos_nonempty)
  then obtain bp where bp: "brevity_penalty ?c ?r = Inr bp"
    using brevity_penalty_Inr by blast
  from ex obtain q where "q \<in> set ?ps" and "q \<noteq> 0" by blast
  moreover from this have "0 \<le> q" by (auto simp: precision_ratios_def precision_ratio_nonneg)
  ultimately have "q \<in> set (filter (\<lambda>p. 0 < p) ?ps)" by simp
  then have "filter (\<lambda>p. 0 < p) ?ps \<noteq> []" by (metis empty_iff empty_set)
  then have ne: "map ln (filter (\<lambda>p. 0 < p) ?ps) \<noteq> []" by simp
  from ex have nz: "\<not> list_all (\<lambda>p. p = 0) ?ps" by (simp add: list_all_iff)
  have "bleu_score_sentence U candidate_str references_strs max_n
          = Inr (bp * exp (mean_log_positive ?ps))"
    using nz bp by (simp add: bleu_unfold np_mean_eq[OF ne] mean_log_positive_def Let_def)
  with bp show ?thesis by blast
qed

text \<open>
  On strings \<open>bleu_score_sentence\<close> always returns a score: none of the error branches of
  the model is reached, the mean of an empty list included.
\<close>

lemma bleu_score_sentence_returns:
  "\<exists>score. bleu_score_sentence U candidate_str references_strs max_n = Inr score"
proof (cases "\<forall>p \<in> set (precision_ratios U candidate_str references_strs max_n). p = 0")
  case True
  then show ?thesis using bleu_all_zero by blast
next
  case False
  then have "\<exists>p \<in> set (precision_ratios U candidate_str references_strs max_n). p \<noteq> 0"
    by blast
  then show ?thesis using bleu_some_positive by blast
qed

text \<open>
  C3. For \<open>max_n \<ge> 1\<close>, with the precision ratio of each order from \<open>1\<close> to
  \<open>max_n\<close> (\<open>0\<close> when its denominator is \<open>0\<close>): when every ratio is \<open>0\<close>,
  \<open>bleu_score_sentence\<close> returns \<open>0\<close>; otherwise the brevity penalty has a value and
  the function returns it times the exponential of the mean of the logarithms of the
  positive ratios only. No error is raised in either case.
\<close>

theorem bleu_score_sentence_value:
  assumes "1 \<le> max_n"
  shows "((\<forall>p \<in> set (precision_ratios U candidate_str references_strs max_n). p = 0)
            \<longrightarrow> bleu_score_sentence U candidate_str references_strs max_n = Inr 0)
       \<and> ((\<exists>p \<in> set (precision_ratios U candidate_str references_strs max_n). p \<noteq> 0)
            \<longrightarrow> (\<exists>bp. brevity_penalty (tokens U candidate_str) (map (tokens U) references_strs)
                          = Inr bp
                     \<and> bleu_score_sentence U candidate_str references_strs max_n
                          = Inr (bp * exp (mean_log_positive
                                  (precision_ratios U candidate_str references_strs max_n)))))"
  using bleu_all_zero[of U candidate_str references_strs max_n]
    bleu_some_positive[of U candidate_str references_strs max_n]
  by blast

text \<open>
  The notebook's third example, where the ratios of the orders 2 to 4 are \<open>0\<close> and are
  left out of the mean, and a candidate that shares no word with its reference.
\<close>

lemma the_tokens:
  "tokens latin1 ''the the the the the the the.''
     = [''the'', ''the'', ''the'', ''the'', ''the'', ''the'', ''the'']"
  by code_simp

lemma cat_tokens:
  "tokens latin1 ''The cat is on the mat.'' = [''the'', ''cat'', ''is'', ''on'', ''the'', ''mat'']"
  by code_simp

lemma the_precisions:
  "n_gram_precision [''the'', ''the'', ''the'', ''the'', ''the'', ''the'', ''the'']
     [[''the'', ''cat'', ''is'', ''on'', ''the'', ''mat''],
      [''the'', ''cat'', ''is'', ''on'', ''the'', ''mat'']] 1 = Inr (2, 7)"
  "n_gram_precision [''the'', ''the'', ''the'', ''the'', ''the'', ''the'', ''the'']
     [[''the'', ''cat'', ''is'', ''on'', ''the'', ''mat''],
      [''the'', ''cat'', ''is'', ''on'', ''the'', ''mat'']] 2 = Inr (0, 6)"
  "n_gram_precision [''the'', ''the'', ''the'', ''the'', ''the'', ''the'', ''the'']
     [[''the'', ''cat'', ''is'', ''on'', ''the'', ''mat''],
      [''the'', ''cat'', ''is'', ''on'', ''the'', ''mat'']] 3 = Inr (0, 5)"
  "n_gram_precision [''the'', ''the'', ''the'', ''the'', ''the'', ''the'', ''the'']
     [[''the'', ''cat'', ''is'', ''on'', ''the'', ''mat''],
      [''the'', ''cat'', ''is'', ''on'', ''the'', ''mat'']] 4 = Inr (0, 4)"
  by code_simp+

lemma upto_1_4: "[1 .. 4] = [1, 2, 3, 4::int]"
  by (simp add: upto_rec1)

lemma the_ratios:
  "precision_ratios latin1 ''the the the the the the the.''
     [''The cat is on the mat.'', ''The cat is on the mat.''] 4 = [2 / 7, 0, 0, 0]"
  by (simp add: precision_ratios_def precision_ratio_def the_tokens cat_tokens the_precisions
      upto_1_4)

lemma hello_ratios: "precision_ratios latin1 ''Hello you'' [''Good bye''] 4 = [0, 0, 0, 0]"
proof -
  have "tokens latin1 ''Hello you'' = [''hello'', ''you'']"
    and "tokens latin1 ''Good bye'' = [''good'', ''bye'']"
    by code_simp+
  moreover have "n_gram_precision [''hello'', ''you''] [[''good'', ''bye'']] 1 = Inr (0, 2)"
    and "n_gram_precision [''hello'', ''you''] [[''good'', ''bye'']] 2 = Inr (0, 1)"
    and "n_gram_precision [''hello'', ''you''] [[''good'', ''bye'']] 3 = Inr (0, 0)"
    and "n_gram_precision [''hello'', ''you''] [[''good'', ''bye'']] 4 = Inr (0, 0)"
    by code_simp+
  ultimately show ?thesis
    by (simp add: precision_ratios_def precision_ratio_def upto_1_4)
qed

theorem bleu_score_sentence_value_witness:
  "bleu_score_sentence latin1 ''the the the the the the the.''
     [''The cat is on the mat.'', ''The cat is on the mat.''] 4 = Inr (2 / 7)
   \<and> bleu_score_sentence latin1 ''Hello you'' [''Good bye''] 4 = Inr 0"
proof -
  have h: "(1::int) \<le> 4" by simp
  note t = bleu_score_sentence_value[OF h, of latin1 "''the the the the the the the.''"
      "[''The cat is on the mat.'', ''The cat is on the mat.'']"]
  have bp: "brevity_penalty (tokens latin1 ''the the the the the the the.'')
      (map (tokens latin1) [''The cat is on the mat.'', ''The cat is on the mat.'']) = Inr 1"
    by (simp add: the_tokens cat_tokens brevity_penalty_def)
  have m: "exp (mean_log_positive [2 / 7, 0, 0, 0]) = 2 / 7"
    by (simp add: mean_log_positive_def)
  from t bp have "bleu_score_sentence latin1 ''the the the the the the the.''
     [''The cat is on the mat.'', ''The cat is on the mat.''] 4 = Inr (2 / 7)"
    by (auto simp: the_ratios m)
  moreover from bleu_score_sentence_value[OF h, of latin1 "''Hello you''" "[''Good bye'']"]
  have "bleu_score_sentence latin1 ''Hello you'' [''Good bye''] 4 = Inr 0"
    by (simp add: hello_ratios)
  ultimately show ?thesis by simp
qed

text \<open>
  C10. With \<open>max_n < 1\<close> \<open>bleu_score_sentence\<close> returns \<open>0\<close> and raises nothing,
  although \<open>n_gram_precision\<close> rejects the order \<open>max_n\<close> itself.
\<close>

theorem bleu_score_sentence_no_orders:
  assumes "max_n < 1"
  shows "bleu_score_sentence U candidate_str references_strs max_n = Inr 0
       \<and> n_gram_precision (tokens U candidate_str) (map (tokens U) references_strs) max_n
           = Inl (ValueError ''n must be greater or equal 1.'')"
  using assms by (simp add: bleu_unfold precision_ratios_def n_gram_precision_def)

theorem bleu_score_sentence_no_orders_witness:
  "bleu_score_sentence latin1 '''' [] 0 = Inr 0
   \<and> n_gram_precision (tokens latin1 '''') (map (tokens latin1) []) 0
       = Inl (ValueError ''n must be greater or equal 1.'')
   \<and> brevity_penalty (tokens latin1 '''') (map (tokens latin1) [])
       = Inl (ValueError ''min() arg is an empty sequence'')"
proof -
  have h: "(0::int) < 1" by simp
  have "brevity_penalty (tokens latin1 '''') (map (tokens latin1) [])
       = Inl (ValueError ''min() arg is an empty sequence'')"
    by (simp add: brevity_penalty_def)
  with bleu_score_sentence_no_orders[OF h, of latin1 "''''" "[]"] show ?thesis
    by blast
qed

end
